theory Spec2Isabelle
  imports Complex_Main "HOL-Library.Sublist"
begin

section \<open>The sticky-notes board of \<open>src/app/page.tsx\<close>\<close>

text \<open>
  The component \<open>StickyNotesApp\<close> keeps four \<open>useState\<close> cells (\<open>notes\<close>, \<open>maxZIndex\<close>,
  \<open>dragState\<close>, \<open>showTutorial\<close>) and one \<open>localStorage\<close> entry under \<open>STORAGE_KEY\<close>.
  Every handler is modelled as a function from the state the handler's closure sees to
  the state after its queued updates are applied; the two \<open>useEffect\<close> hooks are applied
  by \<open>mount\<close> and \<open>commit\<close> in the order React runs them.

  \<open>Math.random\<close>, \<open>crypto.randomUUID\<close>, \<open>window.confirm\<close>, \<open>JSON.parse\<close> and
  \<open>JSON.stringify\<close> are not code of the component; their results are parameters of the
  functions that call them.
\<close>

subsection \<open>Numbers\<close>

text \<open>
  A JavaScript number is a binary64 value. It is modelled as the real number it denotes,
  and every \<open>+\<close>, \<open>-\<close> and \<open>*\<close> of the source rounds its exact result to the nearest
  value with a significand of 53 bits, ties to the even significand: \<open>expo\<close> is the binary
  exponent of a positive number, \<open>round_even\<close> rounds to the nearest integer, and
  \<open>round64\<close> rounds to the nearest binary64 value. Comparisons, \<open>Math.max\<close> and
  \<open>Math.floor\<close> are exact. The exponent is not bounded: overflow to an infinity, gradual
  underflow and \<open>NaN\<close> are outside the model.
\<close>

function expo :: "real \<Rightarrow> int" where
  "expo r = (if r \<le> 0 then 0
             else if 2 \<le> r then expo (r / 2) + 1
             else if r < 1 then expo (2 * r) - 1
             else 0)"
  by pat_completeness auto
termination
proof (relation "measure (\<lambda>r. if 1 \<le> r then nat \<lfloor>r\<rfloor> else nat \<lceil>2 / r\<rceil>)")
  show "wf (measure (\<lambda>r::real. if 1 \<le> r then nat \<lfloor>r\<rfloor> else nat \<lceil>2 / r\<rceil>))" by simp
next
  fix r :: real
  assume "\<not> r \<le> 0" and r: "2 \<le> r"
  have "\<lfloor>r / 2\<rfloor> < \<lfloor>r\<rfloor>" using r by linarith
  moreover have "0 < \<lfloor>r\<rfloor>" using r by linarith
  ultimately show "(r / 2, r) \<in> measure (\<lambda>r. if 1 \<le> r then nat \<lfloor>r\<rfloor> else nat \<lceil>2 / r\<rceil>)"
    using r by simp
next
  fix r :: real
  assume p: "\<not> r \<le> 0" and "\<not> 2 \<le> r" and r: "r < 1"
  have i: "1 < 1 / r" using p r by (simp add: field_simps)
  have c: "2 / r \<le> of_int \<lceil>2 / r\<rceil>" by (rule le_of_int_ceiling)
  have t: "2 / r = 2 * (1 / r)" by simp
  show "(2 * r, r) \<in> measure (\<lambda>r. if 1 \<le> r then nat \<lfloor>r\<rfloor> else nat \<lceil>2 / r\<rceil>)"
  proof (cases "1 \<le> 2 * r")
    case True
    have "\<lfloor>2 * r\<rfloor> = 1" using True r by linarith
    moreover have "2 < \<lceil>2 / r\<rceil>" using c i t by linarith
    ultimately show ?thesis using True r by simp
  next
    case False
    have "2 / (2 * r) = 1 / r" using p by simp
    moreover have "of_int \<lceil>1 / r\<rceil> < 1 / r + 1" using ceiling_correct [of "1 / r"] by linarith
    ultimately have "\<lceil>2 / (2 * r)\<rceil> < \<lceil>2 / r\<rceil>" using c i t by linarith
    moreover have "0 < \<lceil>2 / r\<rceil>" using c i t by linarith
    ultimately show ?thesis using False r by simp
  qed
qed

declare expo.simps [simp del]

definition round_even :: "real \<Rightarrow> int" where
  "round_even v =
     (let f = \<lfloor>v\<rfloor>; d = v - of_int f
      in if d < 1 / 2 then f else if 1 / 2 < d then f + 1 else if even f then f else f + 1)"

definition round64 :: "real \<Rightarrow> real" where
  "round64 r =
     (if r = 0 then 0
      else (let q = 2 powi (expo \<bar>r\<bar> - 52)
            in sgn r * (of_int (round_even (\<bar>r\<bar> / q)) * q)))"

definition add64 :: "real \<Rightarrow> real \<Rightarrow> real" where
  "add64 a b = round64 (a + b)"

definition sub64 :: "real \<Rightarrow> real \<Rightarrow> real" where
  "sub64 a b = round64 (a - b)"

definition mul64 :: "real \<Rightarrow> real \<Rightarrow> real" where
  "mul64 a b = round64 (a * b)"

definition is_double :: "real \<Rightarrow> bool" where
  "is_double a = (round64 a = a)"


subsection \<open>Types\<close>

datatype NoteColor = yellow | blue | green | pink | orange | purple

text \<open>\<open>interface Note\<close>; the field \<open>id\<close> is written \<open>id'\<close> (\<open>id\<close> is the identity of HOL).\<close>

record Note =
  id' :: string
  x :: real
  y :: real
  content :: string
  color :: NoteColor
  zIndex :: real
  width :: real
  height :: real

text \<open>\<open>interface DragState\<close>; \<open>string | null\<close> is \<open>string option\<close>.\<close>

record DragState =
  isDragging :: bool
  noteId :: "string option"
  startX :: real
  startY :: real
  initialNoteX :: real
  initialNoteY :: real

text \<open>
  The state of the component; the cell \<open>notes\<close> is written \<open>notes'\<close> (\<open>notes\<close> is a
  keyword of Isar). \<open>notesGen\<close> stands for the identity of the array held in
  \<open>notes\<close>: every \<open>setNotes\<close> call installs a fresh array (\<open>map\<close>, \<open>filter\<close>, a spread and
  \<open>[]\<close> all allocate), and the dependency list \<open>[notes, showTutorial]\<close> of the saving
  effect compares identities, not contents. \<open>storage\<close> is \<open>localStorage.getItem(STORAGE_KEY)\<close>:
  \<open>None\<close> when the key is absent.
\<close>

record App =
  notes' :: "Note list"
  notesGen :: nat
  maxZIndex :: real
  dragState :: DragState
  showTutorial :: bool
  storage :: "string option"

subsection \<open>Constants\<close>

text \<open>\<open>Object.keys(COLORS)\<close>, in the insertion order of the object literal.\<close>

definition COLOR_KEYS :: "NoteColor list" where
  "COLOR_KEYS = [yellow, blue, green, pink, orange, purple]"

definition DEFAULT_WIDTH :: real where
  "DEFAULT_WIDTH = 220"

definition DEFAULT_HEIGHT :: real where
  "DEFAULT_HEIGHT = 220"

text \<open>The values the \<open>useState\<close> calls start from, over a store holding \<open>stored\<close>.\<close>

definition initialState :: "string option \<Rightarrow> App" where
  "initialState stored =
     \<lparr>notes' = [], notesGen = 0, maxZIndex = 1,
      dragState = \<lparr>isDragging = False, noteId = None, startX = 0, startY = 0,
                   initialNoteX = 0, initialNoteY = 0\<rparr>,
      showTutorial = True, storage = stored\<rparr>"

definition setNotes :: "(Note list \<Rightarrow> Note list) \<Rightarrow> App \<Rightarrow> App" where
  "setNotes f s = s\<lparr>notes' := f (notes' s), notesGen := Suc (notesGen s)\<rparr>"

subsection \<open>Effects\<close>

text \<open>
  What \<open>JSON.parse\<close> returns: an array, whose elements are read as \<open>Note\<close> records (the
  type \<open>Note[]\<close> that \<open>setNotes(parsed)\<close> gives them), or a value that is not an array.
  A text that \<open>JSON.parse\<close> rejects is \<open>None\<close> of the parameter \<open>JSON_parse\<close>.
\<close>

datatype json = JNull | JBool bool | JNumber real | JString string | JObject | JArray "Note list"

fun Array_isArray :: "json \<Rightarrow> bool" where
  "Array_isArray (JArray ps) = True"
| "Array_isArray v = False"

fun elements :: "json \<Rightarrow> Note list" where
  "elements (JArray ps) = ps"
| "elements v = []"

datatype exn = SyntaxError

text \<open>
  The body of the \<open>try\<close> block of the loading effect. \<open>if (saved)\<close> is false for \<open>null\<close> and
  for the empty string; \<open>note.zIndex || 1\<close> is \<open>1\<close> when \<open>zIndex\<close> is \<open>0\<close>.
\<close>

definition loadBody :: "(string \<Rightarrow> json option) \<Rightarrow> App \<Rightarrow> exn + App" where
  "loadBody JSON_parse s =
     (case storage s of
        None \<Rightarrow> Inr s
      | Some saved \<Rightarrow>
          if saved = [] then Inr s
          else
            (case JSON_parse saved of
               None \<Rightarrow> Inl SyntaxError
             | Some parsed \<Rightarrow>
                 if Array_isArray parsed then
                   (let s1 = setNotes (\<lambda>prev. elements parsed) s;
                        maxZ = foldl (\<lambda>mx note. max mx (if zIndex note = 0 then 1 else zIndex note))
                                 1 (elements parsed);
                        s2 = s1\<lparr>maxZIndex := add64 maxZ 1\<rparr>
                    in Inr (if length (elements parsed) > 0 then s2\<lparr>showTutorial := False\<rparr> else s2))
                 else Inr s))"

text \<open>The \<open>catch\<close> clause logs and goes on: nothing was set before \<open>JSON.parse\<close> threw.\<close>

definition loadEffect :: "(string \<Rightarrow> json option) \<Rightarrow> App \<Rightarrow> App" where
  "loadEffect JSON_parse s = (case loadBody JSON_parse s of Inl e \<Rightarrow> s | Inr s' \<Rightarrow> s')"

definition saveEffect :: "(Note list \<Rightarrow> string) \<Rightarrow> App \<Rightarrow> App" where
  "saveEffect JSON_stringify s =
     (if length (notes' s) > 0 \<or> \<not> showTutorial s
      then s\<lparr>storage := Some (JSON_stringify (notes' s))\<rparr>
      else s)"

text \<open>
  After a handler has taken the rendered state \<open>s\<close> to \<open>s'\<close>, React renders again and runs
  the saving effect when one of its dependencies \<open>[notes, showTutorial]\<close> changed.
\<close>

definition commit :: "(Note list \<Rightarrow> string) \<Rightarrow> App \<Rightarrow> App \<Rightarrow> App" where
  "commit JSON_stringify s s' =
     (if notesGen s' \<noteq> notesGen s \<or> showTutorial s' \<noteq> showTutorial s
      then saveEffect JSON_stringify s' else s')"

text \<open>
  Mounting: the loading effect runs on the first render; the saving effect of that render
  sees \<open>notes = []\<close> and \<open>showTutorial = true\<close>, so its guard is false and it writes nothing;
  the render that follows the loaded state runs it again.
\<close>

definition mount :: "(string \<Rightarrow> json option) \<Rightarrow> (Note list \<Rightarrow> string) \<Rightarrow> string option \<Rightarrow> App" where
  "mount JSON_parse JSON_stringify stored =
     commit JSON_stringify (initialState stored) (loadEffect JSON_parse (initialState stored))"

subsection \<open>Event handlers\<close>

text \<open>
  \<open>addNote\<close>: \<open>r1\<close>, \<open>r2\<close>, \<open>r3\<close> are the three results of \<open>Math.random()\<close>, in the order of
  the calls, and \<open>uuid\<close> is the result of \<open>crypto.randomUUID()\<close>. \<open>Math.random\<close> returns a
  binary64 value in \<open>[0, 1)\<close>, which keeps the index into \<open>COLOR_KEYS\<close> in range; outside
  that range JavaScript would read \<open>undefined\<close>, and no statement below is made there.
\<close>

definition addNote :: "real \<Rightarrow> real \<Rightarrow> real \<Rightarrow> string \<Rightarrow> App \<Rightarrow> App" where
  "addNote r1 r2 r3 uuid s =
     (let newZIndex = add64 (maxZIndex s) 1;
          startX = add64 50 (mul64 r1 100);
          startY = add64 80 (mul64 r2 100);
          randomColor = COLOR_KEYS ! nat \<lfloor>mul64 r3 (real (length COLOR_KEYS))\<rfloor>;
          newNote = \<lparr>id' = uuid, x = startX, y = startY, content = [], color = randomColor,
                     zIndex = newZIndex, width = DEFAULT_WIDTH, height = DEFAULT_HEIGHT\<rparr>
      in (setNotes (\<lambda>prev. prev @ [newNote]) (s\<lparr>maxZIndex := newZIndex\<rparr>))\<lparr>showTutorial := False\<rparr>)"

definition updateNoteContent :: "string \<Rightarrow> string \<Rightarrow> App \<Rightarrow> App" where
  "updateNoteContent i c s =
     setNotes (\<lambda>prev. map (\<lambda>n. if id' n = i then n\<lparr>content := c\<rparr> else n) prev) s"

definition updateNoteColor :: "string \<Rightarrow> NoteColor \<Rightarrow> App \<Rightarrow> App" where
  "updateNoteColor i c s =
     setNotes (\<lambda>prev. map (\<lambda>n. if id' n = i then n\<lparr>color := c\<rparr> else n) prev) s"

definition deleteNote :: "string \<Rightarrow> App \<Rightarrow> App" where
  "deleteNote i s = setNotes (\<lambda>prev. filter (\<lambda>n. id' n \<noteq> i) prev) s"

text \<open>
  \<open>bringToFront\<close>: \<open>notes.find\<close> gives the first note with the identifier, or \<open>undefined\<close>
  (\<open>None\<close>); \<open>targetNote && \<dots>\<close> is false for \<open>undefined\<close>, and the function goes on.
\<close>

definition bringToFront :: "string \<Rightarrow> App \<Rightarrow> App" where
  "bringToFront i s =
     (let targetNote = find (\<lambda>n. id' n = i) (notes' s)
      in if (case targetNote of None \<Rightarrow> False | Some t \<Rightarrow> zIndex t = maxZIndex s) then s
         else
           (let newZ = add64 (maxZIndex s) 1
            in setNotes (\<lambda>prev. map (\<lambda>n. if id' n = i then n\<lparr>zIndex := newZ\<rparr> else n) prev)
                 (s\<lparr>maxZIndex := newZ\<rparr>)))"

text \<open>\<open>clearAll\<close>: \<open>confirmed\<close> is the answer of \<open>window.confirm\<close>.\<close>

definition clearAll :: "bool \<Rightarrow> App \<Rightarrow> App" where
  "clearAll confirmed s =
     (if confirmed then (setNotes (\<lambda>prev. []) s)\<lparr>storage := None\<rparr> else s)"

text \<open>
  \<open>handleDragStart\<close>: \<open>clientX\<close> and \<open>clientY\<close> are the coordinates of the mouse event or of
  \<open>e.touches[0]\<close>. The note read for the anchor is the one found in the rendered \<open>notes\<close>.
\<close>

definition handleDragStart :: "real \<Rightarrow> real \<Rightarrow> string \<Rightarrow> App \<Rightarrow> App" where
  "handleDragStart clientX clientY i s =
     (case find (\<lambda>n. id' n = i) (notes' s) of
        None \<Rightarrow> s
      | Some note \<Rightarrow>
          (bringToFront i s)
            \<lparr>dragState := \<lparr>isDragging = True, noteId = Some i, startX = clientX, startY = clientY,
                           initialNoteX = x note, initialNoteY = y note\<rparr>\<rparr>)"

text \<open>\<open>!dragState.noteId\<close> holds for \<open>null\<close> and for the empty string.\<close>

definition handleMouseMove :: "real \<Rightarrow> real \<Rightarrow> App \<Rightarrow> App" where
  "handleMouseMove clientX clientY s =
     (let d = dragState s
      in if \<not> isDragging d \<or> noteId d = None \<or> noteId d = Some [] then s
         else
           (let deltaX = sub64 clientX (startX d);
                deltaY = sub64 clientY (startY d)
            in setNotes
                 (\<lambda>prevNotes.
                    map (\<lambda>n. if Some (id' n) = noteId d
                              then n\<lparr>x := add64 (initialNoteX d) deltaX, y := add64 (initialNoteY d) deltaY\<rparr>
                              else n) prevNotes) s))"

definition handleMouseUp :: "App \<Rightarrow> App" where
  "handleMouseUp s =
     (if isDragging (dragState s)
      then s\<lparr>dragState := (dragState s)\<lparr>isDragging := False, noteId := None\<rparr>\<rparr>
      else s)"

text \<open>
  The window listeners exist while \<open>dragState.isDragging\<close> holds, for the four event types
  the effect registers; an event of any other type (\<open>touchcancel\<close>, \<open>pointercancel\<close>, \<dots>)
  has no listener.
\<close>

definition windowEvent :: "string \<Rightarrow> real \<Rightarrow> real \<Rightarrow> App \<Rightarrow> App" where
  "windowEvent ty clientX clientY s =
     (if isDragging (dragState s) then
        (if ty = ''mousemove'' \<or> ty = ''touchmove'' then handleMouseMove clientX clientY s
         else if ty = ''mouseup'' \<or> ty = ''touchend'' then handleMouseUp s
         else s)
      else s)"

subsection \<open>The board as a transition system\<close>

datatype Event =
    AddNote real real real string
  | UpdateNoteContent string string
  | UpdateNoteColor string NoteColor
  | DeleteNote string
  | BringToFront string
  | ClearAll bool
  | HandleDragStart real real string
  | Window string real real

fun handler :: "Event \<Rightarrow> App \<Rightarrow> App" where
  "handler (AddNote r1 r2 r3 uuid) s = addNote r1 r2 r3 uuid s"
| "handler (UpdateNoteContent i c) s = updateNoteContent i c s"
| "handler (UpdateNoteColor i c) s = updateNoteColor i c s"
| "handler (DeleteNote i) s = deleteNote i s"
| "handler (BringToFront i) s = bringToFront i s"
| "handler (ClearAll confirmed) s = clearAll confirmed s"
| "handler (HandleDragStart clientX clientY i) s = handleDragStart clientX clientY i s"
| "handler (Window ty clientX clientY) s = windowEvent ty clientX clientY s"

definition step :: "(Note list \<Rightarrow> string) \<Rightarrow> Event \<Rightarrow> App \<Rightarrow> App" where
  "step JSON_stringify ev s = commit JSON_stringify s (handler ev s)"

fun run :: "(Note list \<Rightarrow> string) \<Rightarrow> Event list \<Rightarrow> App \<Rightarrow> App" where
  "run JSON_stringify [] s = s"
| "run JSON_stringify (ev # evs) s = run JSON_stringify evs (step JSON_stringify ev s)"

subsection \<open>Sequences of calls\<close>

text \<open>The pointer-move events of one gesture, delivered in order to \<open>handleMouseMove\<close>.\<close>

fun moves :: "(real \<times> real) list \<Rightarrow> App \<Rightarrow> App" where
  "moves [] s = s"
| "moves (p # ps) s = moves ps (handleMouseMove (fst p) (snd p) s)"



subsection \<open>Notions used in the statements and proofs\<close>





text \<open>The part of a note that no handler writes.\<close>

definition frame :: "Note \<Rightarrow> string \<times> real \<times> real" where
  "frame n = (id' n, width n, height n)"

fun isWindow :: "Event \<Rightarrow> bool" where
  "isWindow (Window ty clientX clientY) = True"
| "isWindow ev = False"



text \<open>The update \<open>handleMouseMove\<close> maps over the notes.\<close>

definition reposition :: "DragState \<Rightarrow> real \<Rightarrow> real \<Rightarrow> Note \<Rightarrow> Note" where
  "reposition d cx cy n =
     (if Some (id' n) = noteId d
      then n\<lparr>x := add64 (initialNoteX d) (sub64 cx (startX d)),
             y := add64 (initialNoteY d) (sub64 cy (startY d))\<rparr>
      else n)"

text \<open>The session names no note of the collection.\<close>

definition orphaned :: "App \<Rightarrow> bool" where
  "orphaned s = (noteId (dragState s) \<notin> Some ` id' ` set (notes' s))"


definition tutorialInv :: "App \<Rightarrow> bool" where
  "tutorialInv s = (notes' s = [] \<or> \<not> showTutorial s)"

text \<open>Sample data for the instances below: a store text, a parser and a serialiser.\<close>

definition sampleNote :: Note where
  "sampleNote = \<lparr>id' = ''n7'', x = 10, y = 20, content = ''milk'', color = green, zIndex = 7,
                 width = 220, height = 220\<rparr>"

definition sampleParse :: "string \<Rightarrow> json option" where
  "sampleParse text =
     (if text = ''[]'' then Some (JArray [])
      else if text = ''[n7]'' then Some (JArray [sampleNote])
      else if text = ''[anon]'' then Some (JArray [sampleNote\<lparr>id' := []\<rparr>])
      else if text = ''[big]''
        then Some (JArray [sampleNote\<lparr>id' := ''big'', zIndex := 9007199254740991\<rparr>])
      else if text = ''42'' then Some (JNumber 42)
      else None)"

definition sampleStringify :: "Note list \<Rightarrow> string" where
  "sampleStringify ns = (if ns = [] then ''[]'' else ''[..]'')"

definition sampleBoard :: App where
  "sampleBoard = addNote 0 0 0 ''b'' (addNote 0 0 0 ''a'' (initialState None))"

definition sampleDrag :: App where
  "sampleDrag = handleDragStart 10 10 ''a'' sampleBoard"

definition sampleAnonDrag :: App where
  "sampleAnonDrag = handleDragStart 1 1 [] (mount sampleParse sampleStringify (Some ''[anon]''))"

definition sampleBig :: App where
  "sampleBig = mount sampleParse sampleStringify (Some ''[big]'')"

definition sampleA :: Note where
  "sampleA = \<lparr>id' = ''a'', x = 50, y = 80, content = [], color = yellow, zIndex = 2,
              width = 220, height = 220\<rparr>"



section \<open>Lemmas\<close>

subsection \<open>Rounding\<close>

lemma powi_succ: "(2::real) powi (k + 1) = 2 powi k * 2"
  by (simp add: power_int_add_1)

lemma expo_bounds: "0 < r \<Longrightarrow> 2 powi (expo r) \<le> r \<and> r < 2 powi (expo r + 1)"
proof (induction r rule: expo.induct)
  case (1 r)
  show ?case
  proof (cases "2 \<le> r")
    case True
    with "1.prems" have e: "expo r = expo (r / 2) + 1" by (simp add: expo.simps)
    from "1.IH"(1) True "1.prems"
    have "2 powi (expo (r / 2)) \<le> r / 2 \<and> r / 2 < 2 powi (expo (r / 2) + 1)" by simp
    then show ?thesis
      unfolding e using powi_succ [of "expo (r / 2)"] powi_succ [of "expo (r / 2) + 1"]
      by linarith
  next
    case False
    show ?thesis
    proof (cases "r < 1")
      case True
      with False "1.prems" have e: "expo r = expo (2 * r) - 1" by (simp add: expo.simps)
      from "1.IH"(2) True False "1.prems"
      have "2 powi (expo (2 * r)) \<le> 2 * r \<and> 2 * r < 2 powi (expo (2 * r) + 1)" by simp
      moreover have "expo (2 * r) - 1 + 1 = expo (2 * r)" by simp
      ultimately show ?thesis
        unfolding e using powi_succ [of "expo (2 * r) - 1"] powi_succ [of "expo (2 * r)"]
        by (simp only:) linarith
    next
      case b: False
      with False "1.prems" have "expo r = 0" by (simp add: expo.simps)
      with b False show ?thesis by simp
    qed
  qed
qed

lemma expo_unique:
  assumes "0 < r" and "2 powi k \<le> r" and "r < 2 powi (k + 1)"
  shows "expo r = k"
proof (rule ccontr)
  assume n: "expo r \<noteq> k"
  from expo_bounds [OF assms(1)]
  have b: "2 powi (expo r) \<le> r" "r < 2 powi (expo r + 1)" by simp_all
  show False
  proof (cases "expo r < k")
    case True
    then have "(2::real) powi (expo r + 1) \<le> 2 powi k" by (intro power_int_increasing) simp_all
    with b(2) assms(2) show False by linarith
  next
    case False
    with n have "(2::real) powi (k + 1) \<le> 2 powi (expo r)" by (intro power_int_increasing) simp_all
    with b(1) assms(3) show False by linarith
  qed
qed

lemma expo_mono:
  assumes "0 < r" and "r \<le> s"
  shows "expo r \<le> expo s"
proof (rule ccontr)
  assume "\<not> expo r \<le> expo s"
  then have "(2::real) powi (expo s + 1) \<le> 2 powi (expo r)" by (intro power_int_increasing) simp_all
  moreover have "0 < s" using assms by linarith
  ultimately show False
    using expo_bounds [OF assms(1)] expo_bounds [OF \<open>0 < s\<close>] assms(2) by linarith
qed

lemma round_even_of_int: "round_even (of_int n) = n"
  by (simp add: round_even_def)

lemma round_even_mono:
  assumes "v \<le> w"
  shows "round_even v \<le> round_even w"
proof (cases "\<lfloor>v\<rfloor> = \<lfloor>w\<rfloor>")
  case True
  with assms show ?thesis by (auto simp: round_even_def Let_def)
next
  case False
  with assms have "\<lfloor>v\<rfloor> + 1 \<le> \<lfloor>w\<rfloor>" using floor_mono [OF assms] by linarith
  moreover have "round_even v \<le> \<lfloor>v\<rfloor> + 1" by (simp add: round_even_def Let_def)
  moreover have "\<lfloor>w\<rfloor> \<le> round_even w" by (simp add: round_even_def Let_def)
  ultimately show ?thesis by linarith
qed

lemma round_even_le: "v \<le> of_int n \<Longrightarrow> round_even v \<le> n"
  using round_even_mono [of v "of_int n"] by (simp add: round_even_of_int)

lemma round_even_ge: "of_int n \<le> v \<Longrightarrow> n \<le> round_even v"
  using round_even_mono [of "of_int n" v] by (simp add: round_even_of_int)

lemma round64_pos:
  "0 < r \<Longrightarrow> round64 r = of_int (round_even (r / 2 powi (expo r - 52))) * 2 powi (expo r - 52)"
  by (simp add: round64_def Let_def)

lemma round64_minus: "round64 (- r) = - round64 r"
  by (simp add: round64_def Let_def)

lemma powi_split: "(2::real) powi k = 2 powi (k - 52) * 2 ^ 52"
proof -
  have "(2::real) powi k = 2 powi ((k - 52) + 52)" by simp
  also have "\<dots> = 2 powi (k - 52) * 2 powi 52" by (subst power_int_add) simp_all
  finally show ?thesis by simp
qed

lemma round64_pos_bounds:
  assumes "0 < r"
  shows "2 powi (expo r) \<le> round64 r \<and> round64 r \<le> 2 powi (expo r + 1)"
proof -
  let ?q = "(2::real) powi (expo r - 52)"
  have q: "0 < ?q" by simp
  have k: "2 powi (expo r) = ?q * 2 ^ 52" by (rule powi_split)
  have k1: "2 powi (expo r + 1) = ?q * 2 ^ 53"
    using powi_split [of "expo r + 1"] powi_succ [of "expo r - 52"] by (simp add: algebra_simps)
  from expo_bounds [OF assms] have b: "?q * 2 ^ 52 \<le> r" "r < ?q * 2 ^ 53"
    by (simp_all only: k k1)
  have "of_int (2 ^ 52) \<le> r / ?q" using b(1) q by (simp add: field_simps)
  then have l: "2 ^ 52 \<le> round_even (r / ?q)" by (rule round_even_ge)
  have "r / ?q \<le> of_int (2 ^ 53)" using b(2) q by (simp add: field_simps)
  then have u: "round_even (r / ?q) \<le> 2 ^ 53" by (rule round_even_le)
  have "(2::real) ^ 52 \<le> of_int (round_even (r / ?q))"
    using l of_int_le_iff [of "2 ^ 52" "round_even (r / ?q)", where ?'a = real] by simp
  then have "?q * 2 ^ 52 \<le> of_int (round_even (r / ?q)) * ?q"
    using q by (simp add: mult.commute)
  moreover have "of_int (round_even (r / ?q)) \<le> (2::real) ^ 53"
    using u of_int_le_iff [of "round_even (r / ?q)" "2 ^ 53", where ?'a = real] by simp
  then have "of_int (round_even (r / ?q)) * ?q \<le> ?q * 2 ^ 53"
    using q by (simp add: mult.commute)
  ultimately show ?thesis
    by (simp only: k k1 round64_pos [OF assms])
qed

lemma round64_pos_mono:
  assumes "0 < r" and "r \<le> s"
  shows "round64 r \<le> round64 s"
proof -
  have s: "0 < s" using assms by linarith
  have e: "expo r \<le> expo s" using assms by (rule expo_mono)
  show ?thesis
  proof (cases "expo r = expo s")
    case True
    let ?q = "(2::real) powi (expo s - 52)"
    have q: "0 < ?q" by simp
    have "r / ?q \<le> s / ?q" using assms(2) q by (simp add: divide_right_mono)
    then have "round_even (r / ?q) \<le> round_even (s / ?q)" by (rule round_even_mono)
    then have "(of_int (round_even (r / ?q)) :: real) \<le> of_int (round_even (s / ?q))" by simp
    then have "of_int (round_even (r / ?q)) * ?q \<le> of_int (round_even (s / ?q)) * ?q"
      using q by (simp add: mult_right_mono)
    then show ?thesis by (simp only: round64_pos [OF assms(1)] round64_pos [OF s] True)
  next
    case False
    with e have "(2::real) powi (expo r + 1) \<le> 2 powi (expo s)"
      by (intro power_int_increasing) simp_all
    with round64_pos_bounds [OF assms(1)] round64_pos_bounds [OF s] show ?thesis by linarith
  qed
qed

lemma round64_pos_nonneg: "0 < r \<Longrightarrow> 0 < round64 r"
proof -
  assume r: "0 < r"
  have "0 < (2::real) powi (expo r)" by simp
  with round64_pos_bounds [OF r] show ?thesis by linarith
qed

lemma round64_mono:
  assumes "r \<le> s"
  shows "round64 r \<le> round64 s"
proof -
  consider "0 < r" | "r \<le> 0" "0 \<le> s" | "s < 0" by linarith
  then show ?thesis
  proof cases
    case 1
    then show ?thesis using assms by (rule round64_pos_mono)
  next
    case 2
    have "round64 r \<le> 0"
    proof (cases "r = 0")
      case True
      then show ?thesis by (simp add: round64_def)
    next
      case False
      with 2 have "0 < - r" by simp
      from round64_pos_nonneg [OF this] show ?thesis by (simp add: round64_minus)
    qed
    moreover have "0 \<le> round64 s"
    proof (cases "s = 0")
      case True
      then show ?thesis by (simp add: round64_def)
    next
      case False
      with 2 have "0 < s" by simp
      from round64_pos_nonneg [OF this] show ?thesis by simp
    qed
    ultimately show ?thesis by linarith
  next
    case 3
    then have "0 < - s" "- s \<le> - r" using assms by simp_all
    from round64_pos_mono [OF this] show ?thesis by (simp add: round64_minus)
  qed
qed

lemma round64_exact:
  assumes "0 < a" and "a / 2 powi (expo a - 52) = of_int n"
  shows "round64 a = a"
proof -
  have "round64 a = of_int (round_even (of_int n)) * 2 powi (expo a - 52)"
    by (simp only: round64_pos [OF assms(1)] assms(2))
  also have "\<dots> = a / 2 powi (expo a - 52) * 2 powi (expo a - 52)"
    by (simp only: round_even_of_int assms(2))
  also have "\<dots> = a" by simp
  finally show ?thesis .
qed

lemma expo_one: "expo 1 = 0"
  by (simp add: expo.simps)

lemma round64_scaled_pos:
  assumes "0 < m" and "m \<le> 2 ^ 53"
  shows "round64 (of_int m * 2 powi k) = of_int m * 2 powi k"
proof -
  let ?j = "expo (of_int m)"
  let ?a = "of_int m * (2::real) powi k"
  have m: "0 < (of_int m :: real)" "1 \<le> (of_int m :: real)" using assms(1) by simp_all
  have a: "0 < ?a" using m by simp
  from expo_bounds [OF m(1)]
  have b: "2 powi ?j \<le> (of_int m :: real)" "(of_int m :: real) < 2 powi (?j + 1)" by simp_all
  have j0: "0 \<le> ?j" using expo_mono [of 1 "of_int m"] m(2) by (simp add: expo_one)
  have m53: "(of_int m :: real) \<le> 2 powi 53"
    using assms(2) of_int_le_iff [of m "2 ^ 53", where ?'a = real] by simp
  have j53: "?j \<le> 53"
  proof (rule ccontr)
    assume "\<not> ?j \<le> 53"
    then have "(2::real) powi (53 + 1) \<le> 2 powi ?j" by (intro power_int_increasing) simp_all
    with b(1) m53 powi_succ [of 53] show False by simp
  qed
  have e: "expo ?a = ?j + k"
  proof (rule expo_unique [OF a])
    show "2 powi (?j + k) \<le> ?a"
      using b(1) by (simp add: power_int_add mult_right_mono)
    have "?a < 2 powi (?j + 1) * 2 powi k"
      using b(2) by (simp add: mult_strict_right_mono)
    then show "?a < 2 powi (?j + k + 1)"
      by (simp add: power_int_add algebra_simps)
  qed
  have d: "?a / 2 powi (expo ?a - 52) = of_int m * 2 powi (52 - ?j)"
  proof -
    let ?Q = "(2::real) powi (?j + k - 52)"
    have s: "(2::real) powi k = 2 powi (52 - ?j) * ?Q"
      by (subst power_int_add [symmetric]) simp_all
    have "?a / 2 powi (expo ?a - 52) = ?a / ?Q" by (simp only: e)
    also have "\<dots> = (of_int m * 2 powi (52 - ?j)) * ?Q / ?Q"
      by (subst s) (simp only: mult.assoc)
    also have "\<dots> = of_int m * 2 powi (52 - ?j)" by simp
    finally show ?thesis .
  qed
  show ?thesis
  proof (cases "?j \<le> 52")
    case True
    then have "(2::real) powi (52 - ?j) = 2 ^ nat (52 - ?j)" by (simp add: power_int_def)
    then have "?a / 2 powi (expo ?a - 52) = of_int (m * 2 ^ nat (52 - ?j))"
      by (simp add: d)
    with a show ?thesis by (rule round64_exact)
  next
    case False
    with j53 have j: "?j = 53" by simp
    have m2: "(of_int m :: real) = 2 ^ 53" using b(1) m53 by (simp add: j)
    have p: "(2::real) powi (52 - ?j) = 1 / 2" by (simp only: j) simp
    have "of_int m * (2::real) powi (52 - ?j) = of_int m * (1 / 2)" by (simp only: p)
    also have "\<dots> = of_int (2 ^ 52)" by (simp add: m2)
    finally have "of_int m * (2::real) powi (52 - ?j) = of_int (2 ^ 52)" .
    then have "?a / 2 powi (expo ?a - 52) = of_int (2 ^ 52)"
      by (simp only: d)
    with a show ?thesis by (rule round64_exact)
  qed
qed

lemma round64_scaled:
  assumes "\<bar>m\<bar> \<le> 2 ^ 53"
  shows "round64 (of_int m * 2 powi k) = of_int m * 2 powi k"
proof -
  consider "0 < m" | "m = 0" | "m < 0" by linarith
  then show ?thesis
  proof cases
    case 1
    with assms show ?thesis by (intro round64_scaled_pos) simp_all
  next
    case 2
    then show ?thesis by (simp add: round64_def)
  next
    case 3
    with assms have "0 < - m" "- m \<le> 2 ^ 53" by simp_all
    from round64_scaled_pos [OF this, of k] show ?thesis by (simp add: round64_minus)
  qed
qed

lemma round64_of_int: "\<bar>n\<bar> \<le> 2 ^ 53 \<Longrightarrow> round64 (of_int n) = of_int n"
  using round64_scaled [of n 0] by simp




lemma is_double_of_int: "\<bar>n\<bar> \<le> 2 ^ 53 \<Longrightarrow> is_double (of_int n)"
  by (simp add: is_double_def round64_of_int)

lemma is_double_numeral: "numeral w \<le> (9007199254740992::int) \<Longrightarrow> is_double (numeral w)"
  using is_double_of_int [of "numeral w"] by simp

lemma round64_numeral: "numeral w \<le> (9007199254740992::int) \<Longrightarrow> round64 (numeral w) = numeral w"
  using round64_of_int [of "numeral w"] by simp

lemma le_add64_one: "is_double a \<Longrightarrow> a \<le> add64 a 1"
proof -
  assume "is_double a"
  then have "a = round64 a" by (simp add: is_double_def)
  also have "\<dots> \<le> round64 (a + 1)" by (rule round64_mono) simp
  finally show ?thesis by (simp add: add64_def)
qed

lemma add64_one_exact:
  "- (2 ^ 53) \<le> n \<Longrightarrow> n < 2 ^ 53 \<Longrightarrow> add64 (of_int n) 1 = of_int n + 1"
  using round64_of_int [of "n + 1"] by (simp add: add64_def)

lemma round64_zero: "round64 0 = 0"
  by (simp add: round64_def)

lemma round64_one: "round64 1 = 1"
  using round64_of_int [of 1] by simp

subsection \<open>Projections\<close>


lemma setNotes_simps:
  "notes' (setNotes f s) = f (notes' s)"
  "maxZIndex (setNotes f s) = maxZIndex s"
  "dragState (setNotes f s) = dragState s"
  "showTutorial (setNotes f s) = showTutorial s"
  "storage (setNotes f s) = storage s"
  "notesGen (setNotes f s) = Suc (notesGen s)"
  by (simp_all add: setNotes_def)

lemma commit_simps:
  "notes' (commit S s s') = notes' s'"
  "maxZIndex (commit S s s') = maxZIndex s'"
  "dragState (commit S s s') = dragState s'"
  "showTutorial (commit S s s') = showTutorial s'"
  "notesGen (commit S s s') = notesGen s'"
  by (simp_all add: commit_def saveEffect_def)

lemma commit_same: "commit S s s = s"
  by (simp add: commit_def)

subsection \<open>Identifiers that are absent or present\<close>

lemma map_absent_id:
  "i \<notin> id' ` set ns \<Longrightarrow> map (\<lambda>n. if id' n = i then f n else n) ns = ns"
  by (induction ns) auto

lemma filter_absent_id:
  "i \<notin> id' ` set ns \<Longrightarrow> filter (\<lambda>n. id' n \<noteq> i) ns = ns"
  by (induction ns) auto

lemma find_absent_id:
  "i \<notin> id' ` set ns \<Longrightarrow> find (\<lambda>n. id' n = i) ns = None"
  by (induction ns) auto

lemma find_present_id:
  "i \<in> id' ` set ns \<Longrightarrow> \<exists>t. find (\<lambda>n. id' n = i) ns = Some t"
  by (induction ns) auto

lemma find_map_zIndex:
  "find (\<lambda>n. id' n = i) ns = Some t \<Longrightarrow>
   find (\<lambda>n. id' n = i) (map (\<lambda>n. if id' n = i then n\<lparr>zIndex := z\<rparr> else n) ns)
     = Some (t\<lparr>zIndex := z\<rparr>)"
  by (induction ns) (auto split: if_splits)

lemma bringToFront_at_front:
  "find (\<lambda>n. id' n = i) (notes' s) = Some t \<Longrightarrow> zIndex t = maxZIndex s \<Longrightarrow> bringToFront i s = s"
  by (simp add: bringToFront_def)

lemma bringToFront_raise:
  "find (\<lambda>n. id' n = i) (notes' s) = Some t \<Longrightarrow> zIndex t \<noteq> maxZIndex s \<Longrightarrow>
   bringToFront i s =
     setNotes (map (\<lambda>n. if id' n = i then n\<lparr>zIndex := add64 (maxZIndex s) 1\<rparr> else n))
       (s\<lparr>maxZIndex := add64 (maxZIndex s) 1\<rparr>)"
  by (simp add: bringToFront_def Let_def)


subsection \<open>Pointer moves\<close>

lemma handleMouseMove_active:
  "isDragging (dragState s) \<Longrightarrow> noteId (dragState s) = Some t \<Longrightarrow> t \<noteq> [] \<Longrightarrow>
   handleMouseMove cx cy s = setNotes (map (reposition (dragState s) cx cy)) s"
  by (simp add: handleMouseMove_def reposition_def [abs_def] Let_def)

lemma reposition_twice: "reposition d cx cy (reposition d bx bz n) = reposition d cx cy n"
  by (simp add: reposition_def)

lemma moves_dragState: "dragState (moves ps s) = dragState s"
  by (induction ps arbitrary: s) (simp_all add: handleMouseMove_def setNotes_simps Let_def)

lemma moves_stuck: "noteId (dragState s) = Some [] \<Longrightarrow> moves ps s = s"
  by (induction ps) (simp_all add: handleMouseMove_def Let_def)

lemma moves_snoc: "moves (ps @ [p]) s = handleMouseMove (fst p) (snd p) (moves ps s)"
  by (induction ps arbitrary: s) simp_all

lemma moves_notes:
  assumes "isDragging (dragState s)" "noteId (dragState s) = Some t" "t \<noteq> []"
  shows "notes' (moves ps s) = (if ps = [] then notes' s
                                else map (reposition (dragState s) (fst (last ps)) (snd (last ps))) (notes' s))"
proof (induction ps rule: rev_induct)
  case Nil
  show ?case by simp
next
  case (snoc p ps)
  have d: "dragState (moves ps s) = dragState s" by (rule moves_dragState)
  have "notes' (moves (ps @ [p]) s) = map (reposition (dragState s) (fst p) (snd p)) (notes' (moves ps s))"
    using assms by (simp add: moves_snoc handleMouseMove_active [where t = t] d setNotes_simps)
  also have "\<dots> = map (reposition (dragState s) (fst p) (snd p)) (notes' s)"
    by (simp add: snoc.IH reposition_twice comp_def)
  finally show ?case by simp
qed

subsection \<open>Window events\<close>

lemma windowEvent_idle: "\<not> isDragging (dragState s) \<Longrightarrow> windowEvent ty cx cy s = s"
  by (simp add: windowEvent_def)

lemma run_window_idle:
  "\<not> isDragging (dragState s) \<Longrightarrow> list_all isWindow evs \<Longrightarrow> run S evs s = s"
proof (induction evs)
  case Nil
  show ?case by simp
next
  case (Cons ev evs)
  from Cons.prems(2) obtain ty cx cy where ev: "ev = Window ty cx cy"
    by (cases ev) simp_all
  have "step S ev s = s"
    using Cons.prems(1) by (simp add: ev step_def windowEvent_idle commit_same)
  with Cons show ?case by simp
qed

lemma map_orphaned:
  "d \<notin> Some ` id' ` set ns \<Longrightarrow> map (\<lambda>n. if Some (id' n) = d then f n else n) ns = ns"
  by (induction ns) auto

lemma orphaned_commit: "orphaned (commit S s s') = orphaned s'"
  by (simp add: orphaned_def commit_simps)

lemma handleMouseMove_orphaned: "orphaned s \<Longrightarrow> notes' (handleMouseMove cx cy s) = notes' s"
  by (simp add: handleMouseMove_def orphaned_def setNotes_simps Let_def map_orphaned)

lemma handleMouseMove_dragState: "dragState (handleMouseMove cx cy s) = dragState s"
  by (simp add: handleMouseMove_def setNotes_simps Let_def)

lemma windowEvent_orphaned:
  assumes "orphaned s"
  shows "notes' (windowEvent ty cx cy s) = notes' s \<and> orphaned (windowEvent ty cx cy s)"
proof -
  have n: "notes' (windowEvent ty cx cy s) = notes' s"
    using assms by (simp add: windowEvent_def handleMouseMove_orphaned handleMouseUp_def)
  have "noteId (dragState (windowEvent ty cx cy s)) = noteId (dragState s)
        \<or> noteId (dragState (windowEvent ty cx cy s)) = None"
    by (auto simp: windowEvent_def handleMouseMove_dragState handleMouseUp_def)
  with assms n show ?thesis by (auto simp: orphaned_def)
qed

lemma run_window_orphaned:
  "orphaned s \<Longrightarrow> list_all isWindow evs \<Longrightarrow> notes' (run S evs s) = notes' s"
proof (induction evs arbitrary: s)
  case Nil
  show ?case by simp
next
  case (Cons ev evs)
  from Cons.prems(2) obtain ty cx cy where ev: "ev = Window ty cx cy"
    by (cases ev) simp_all
  have o: "orphaned (step S ev s)" and n: "notes' (step S ev s) = notes' s"
    using windowEvent_orphaned [OF Cons.prems(1), of ty cx cy]
    by (simp_all add: ev step_def orphaned_commit commit_simps)
  from Cons.prems(2) have "list_all isWindow evs" by simp
  from Cons.IH [OF o this] n show ?case by simp
qed

lemma deleteNote_orphans:
  "noteId (dragState s) = Some t \<Longrightarrow> orphaned (step S (DeleteNote t) s)"
  by (auto simp: step_def orphaned_commit)
     (auto simp: orphaned_def deleteNote_def setNotes_simps)

lemma map_frame_update:
  "(\<And>n. frame (f n) = frame n) \<Longrightarrow> map frame (map (\<lambda>n. if P n then f n else n) ns) = map frame ns"
  by (induction ns) auto

subsection \<open>Invariants of the reachable states\<close>




lemma loadEffect_cases:
  "loadEffect P (initialState stored) = initialState stored
   \<or> (\<exists>saved v. stored = Some saved \<and> P saved = Some v \<and>
         loadEffect P (initialState stored) =
           (setNotes (\<lambda>prev. elements v) (initialState stored))
             \<lparr>maxZIndex :=
                add64 (foldl (\<lambda>mx note. max mx (if zIndex note = 0 then 1 else zIndex note)) 1
                         (elements v)) 1,
              showTutorial := elements v = []\<rparr>)"
proof (cases "loadEffect P (initialState stored) = initialState stored")
  case True
  then show ?thesis by simp
next
  case False
  then obtain saved v where v: "stored = Some saved" "P saved = Some v" "Array_isArray v"
    by (auto simp: loadEffect_def loadBody_def initialState_def split: option.splits if_splits)
  then have "loadEffect P (initialState stored) =
        (setNotes (\<lambda>prev. elements v) (initialState stored))
          \<lparr>maxZIndex :=
             add64 (foldl (\<lambda>mx note. max mx (if zIndex note = 0 then 1 else zIndex note)) 1
                      (elements v)) 1,
           showTutorial := elements v = []\<rparr>"
    using False
    by (auto simp: loadEffect_def loadBody_def Let_def initialState_def setNotes_def split: if_splits)
  with v show ?thesis by blast
qed






lemma mount_tutorialInv: "tutorialInv (mount P S stored)"
  using loadEffect_cases [of P stored]
  by (auto simp: mount_def tutorialInv_def commit_simps setNotes_simps initialState_def)






lemma handler_tutorialInv: "tutorialInv s \<Longrightarrow> tutorialInv (handler ev s)"
  by (cases ev)
     (auto simp: tutorialInv_def addNote_def updateNoteContent_def updateNoteColor_def
        deleteNote_def bringToFront_def clearAll_def handleDragStart_def windowEvent_def
        handleMouseMove_def handleMouseUp_def setNotes_simps Let_def split: option.splits)

lemma run_tutorialInv: "tutorialInv s \<Longrightarrow> tutorialInv (run S evs s)"
proof (induction evs arbitrary: s)
  case Nil
  then show ?case by simp
next
  case (Cons ev evs)
  from Cons.prems have "tutorialInv (step S ev s)"
    using handler_tutorialInv [of s ev] by (simp add: step_def tutorialInv_def commit_simps)
  from Cons.IH [OF this] show ?case by simp
qed

subsection \<open>Runs of \<open>addNote\<close>\<close>













subsection \<open>Evaluation\<close>


lemmas evals =
  mount_def loadEffect_def loadBody_def initialState_def commit_def saveEffect_def step_def
  addNote_def updateNoteContent_def updateNoteColor_def deleteNote_def bringToFront_def
  clearAll_def handleDragStart_def handleMouseMove_def handleMouseUp_def windowEvent_def
  setNotes_def Let_def COLOR_KEYS_def DEFAULT_WIDTH_def DEFAULT_HEIGHT_def
  sampleParse_def sampleStringify_def sampleNote_def sampleBoard_def sampleDrag_def sampleA_def
  sampleAnonDrag_def sampleBig_def
  frame_def add64_def sub64_def mul64_def round64_zero round64_one round64_numeral

section \<open>The claims\<close>

text \<open>
  Claim C1. After \<open>clearAll\<close> with the user confirming, on a board with at least one note,
  the record of the store is stated to be absent. In every state the board can reach with
  a note on it, \<open>clearAll\<close> itself does erase the record (\<open>removeItem\<close>), but the render
  that follows runs the saving effect: \<open>notes\<close> changed and \<open>showTutorial\<close> is false, so the
  effect writes the serialised empty array back. The store then holds the same record as
  after deleting the only note one by one.
\<close>

theorem clearAll_record_rewritten:
  assumes "notes' (run S evs (mount P S stored)) \<noteq> []"
  shows "storage (clearAll True (run S evs (mount P S stored))) = None
       \<and> storage (step S (ClearAll True) (run S evs (mount P S stored))) = Some (S [])
       \<and> (id' ` set (notes' (run S evs (mount P S stored))) = {i} \<longrightarrow>
            storage (step S (DeleteNote i) (run S evs (mount P S stored)))
              = storage (step S (ClearAll True) (run S evs (mount P S stored))))"
proof -
  let ?s = "run S evs (mount P S stored)"
  have "tutorialInv ?s" using mount_tutorialInv by (rule run_tutorialInv)
  with assms have t: "\<not> showTutorial ?s" by (simp add: tutorialInv_def)
  have c: "storage (step S (ClearAll True) ?s) = Some (S [])"
    using t by (simp add: step_def clearAll_def commit_def saveEffect_def setNotes_simps)
  have d: "storage (step S (DeleteNote i) ?s) = Some (S [])" if "id' ` set (notes' ?s) = {i}"
  proof -
    from that have "filter (\<lambda>n. id' n \<noteq> i) (notes' ?s) = []"
      by (auto simp: filter_empty_conv)
    then show ?thesis
      using t by (simp add: step_def deleteNote_def commit_def saveEffect_def setNotes_simps)
  qed
  show ?thesis using c d by (simp add: clearAll_def setNotes_simps)
qed

theorem clearAll_record_rewritten_witness:
  "notes' (run sampleStringify [AddNote 0 0 0 ''a''] (mount sampleParse sampleStringify None)) \<noteq> []
   \<and> id' ` set (notes' (run sampleStringify [AddNote 0 0 0 ''a'']
                    (mount sampleParse sampleStringify None))) = {''a''}
   \<and> storage (clearAll True
         (run sampleStringify [AddNote 0 0 0 ''a''] (mount sampleParse sampleStringify None))) = None
   \<and> storage (step sampleStringify (ClearAll True)
         (run sampleStringify [AddNote 0 0 0 ''a''] (mount sampleParse sampleStringify None)))
       = Some (sampleStringify [])
   \<and> storage (step sampleStringify (DeleteNote ''a'')
         (run sampleStringify [AddNote 0 0 0 ''a''] (mount sampleParse sampleStringify None)))
       = storage (step sampleStringify (ClearAll True)
         (run sampleStringify [AddNote 0 0 0 ''a''] (mount sampleParse sampleStringify None)))
   \<and> sampleStringify [] = ''[]''"
proof -
  let ?s = "run sampleStringify [AddNote 0 0 0 ''a''] (mount sampleParse sampleStringify None)"
  have h: "notes' ?s \<noteq> []" by (simp add: evals)
  have i: "id' ` set (notes' ?s) = {''a''}" by (simp add: evals)
  have e: "sampleStringify [] = ''[]''" by (simp add: sampleStringify_def)
  show ?thesis
    using h i e clearAll_record_rewritten [OF h, of "''a''"] by blast
qed

text \<open>
  Claim C2, as amended. For an identifier that no note carries, \<open>updateNoteContent\<close>,
  \<open>updateNoteColor\<close> and \<open>deleteNote\<close> leave every note and \<open>maxZIndex\<close> as they were;
  \<open>bringToFront\<close> leaves every note as it was and sets \<open>maxZIndex\<close> to \<open>maxZIndex + 1\<close>.
  The handlers are total functions: none of them has a path that throws.
\<close>

theorem absent_id_leaves_notes:
  assumes "i \<notin> id' ` set (notes' s)"
  shows "notes' (updateNoteContent i c s) = notes' s \<and> maxZIndex (updateNoteContent i c s) = maxZIndex s
       \<and> notes' (updateNoteColor i k s) = notes' s \<and> maxZIndex (updateNoteColor i k s) = maxZIndex s
       \<and> notes' (deleteNote i s) = notes' s \<and> maxZIndex (deleteNote i s) = maxZIndex s
       \<and> notes' (bringToFront i s) = notes' s \<and> maxZIndex (bringToFront i s) = add64 (maxZIndex s) 1"
  using assms
  by (simp add: updateNoteContent_def updateNoteColor_def deleteNote_def bringToFront_def
      setNotes_simps map_absent_id filter_absent_id find_absent_id Let_def)

theorem absent_id_leaves_notes_witness:
  "''z'' \<notin> id' ` set (notes' sampleBoard)
   \<and> notes' (updateNoteContent ''z'' ''hi'' sampleBoard) = notes' sampleBoard
   \<and> maxZIndex (updateNoteContent ''z'' ''hi'' sampleBoard) = maxZIndex sampleBoard
   \<and> notes' (updateNoteColor ''z'' blue sampleBoard) = notes' sampleBoard
   \<and> maxZIndex (updateNoteColor ''z'' blue sampleBoard) = maxZIndex sampleBoard
   \<and> notes' (deleteNote ''z'' sampleBoard) = notes' sampleBoard
   \<and> maxZIndex (deleteNote ''z'' sampleBoard) = maxZIndex sampleBoard
   \<and> notes' (bringToFront ''z'' sampleBoard) = notes' sampleBoard
   \<and> maxZIndex (bringToFront ''z'' sampleBoard) = add64 (maxZIndex sampleBoard) 1"
proof -
  have h: "''z'' \<notin> id' ` set (notes' sampleBoard)" by (simp add: evals)
  show ?thesis
    using h absent_id_leaves_notes [OF h, of "''hi''" blue] by blast
qed

text \<open>As stated, C2 fails for \<open>bringToFront\<close>: on the empty board it moves the counter.\<close>

theorem bringToFront_absent_counterexample:
  "''b'' \<notin> id' ` set (notes' (initialState None))
   \<and> maxZIndex (bringToFront ''b'' (initialState None)) \<noteq> maxZIndex (initialState None)"
  by (simp add: evals)

text \<open>
  Claim C3, as amended. Starting a drag on a note of the board reorders exactly as
  \<open>bringToFront\<close> does, its fast path included: a target whose \<open>zIndex\<close> equals \<open>maxZIndex\<close>
  keeps it, and so does every other note and the counter; otherwise the notes with the
  target's identifier get \<open>maxZIndex + 1\<close>, which becomes the new \<open>maxZIndex\<close>; it is not
  below the old one, and it is greater while \<open>maxZIndex\<close> is an integer below \<open>2 ^ 53\<close>. In
  both cases the session is recorded with the pointer and the note's position as anchors.
\<close>

theorem handleDragStart_reorders_as_bringToFront:
  assumes "find (\<lambda>n. id' n = i) (notes' s) = Some t"
  shows "notes' (handleDragStart cx cy i s) = notes' (bringToFront i s)
       \<and> maxZIndex (handleDragStart cx cy i s) = maxZIndex (bringToFront i s)
       \<and> (zIndex t = maxZIndex s \<longrightarrow>
            notes' (handleDragStart cx cy i s) = notes' s
          \<and> maxZIndex (handleDragStart cx cy i s) = maxZIndex s)
       \<and> (zIndex t \<noteq> maxZIndex s \<longrightarrow>
            notes' (handleDragStart cx cy i s)
              = map (\<lambda>n. if id' n = i then n\<lparr>zIndex := add64 (maxZIndex s) 1\<rparr> else n) (notes' s)
          \<and> maxZIndex (handleDragStart cx cy i s) = add64 (maxZIndex s) 1
          \<and> (is_double (maxZIndex s) \<longrightarrow> maxZIndex s \<le> maxZIndex (handleDragStart cx cy i s))
          \<and> (maxZIndex s = of_int k \<and> - (2 ^ 53) \<le> k \<and> k < 2 ^ 53 \<longrightarrow>
                maxZIndex s < maxZIndex (handleDragStart cx cy i s)))
       \<and> dragState (handleDragStart cx cy i s)
           = \<lparr>isDragging = True, noteId = Some i, startX = cx, startY = cy,
              initialNoteX = x t, initialNoteY = y t\<rparr>"
  using assms
  by (simp add: handleDragStart_def bringToFront_def setNotes_simps Let_def le_add64_one
      add64_one_exact)

theorem handleDragStart_reorders_as_bringToFront_witness:
  "find (\<lambda>n. id' n = ''a'') (notes' sampleBoard) = Some sampleA
   \<and> zIndex sampleA \<noteq> maxZIndex sampleBoard
   \<and> notes' (handleDragStart 5 6 ''a'' sampleBoard)
       = map (\<lambda>n. if id' n = ''a'' then n\<lparr>zIndex := add64 (maxZIndex sampleBoard) 1\<rparr> else n)
           (notes' sampleBoard)
   \<and> maxZIndex (handleDragStart 5 6 ''a'' sampleBoard) = add64 (maxZIndex sampleBoard) 1
   \<and> is_double (maxZIndex sampleBoard)
   \<and> maxZIndex sampleBoard \<le> maxZIndex (handleDragStart 5 6 ''a'' sampleBoard)
   \<and> maxZIndex sampleBoard = of_int 3
   \<and> maxZIndex sampleBoard < maxZIndex (handleDragStart 5 6 ''a'' sampleBoard)
   \<and> find (\<lambda>n. id' n = ''a'') (notes' (addNote 0 0 0 ''a'' (initialState None))) = Some sampleA
   \<and> zIndex sampleA = maxZIndex (addNote 0 0 0 ''a'' (initialState None))
   \<and> notes' (handleDragStart 5 6 ''a'' (addNote 0 0 0 ''a'' (initialState None)))
       = notes' (addNote 0 0 0 ''a'' (initialState None))
   \<and> maxZIndex (handleDragStart 5 6 ''a'' (addNote 0 0 0 ''a'' (initialState None)))
       = maxZIndex (addNote 0 0 0 ''a'' (initialState None))"
proof -
  let ?s1 = "addNote 0 0 0 ''a'' (initialState None)"
  have f2: "find (\<lambda>n. id' n = ''a'') (notes' sampleBoard) = Some sampleA" by (simp add: evals)
  have f1: "find (\<lambda>n. id' n = ''a'') (notes' ?s1) = Some sampleA" by (simp add: evals)
  have z2: "zIndex sampleA \<noteq> maxZIndex sampleBoard" by (simp add: evals)
  have z1: "zIndex sampleA = maxZIndex ?s1" by (simp add: evals)
  have d: "is_double (maxZIndex sampleBoard)" by (simp add: evals is_double_numeral)
  have k: "maxZIndex sampleBoard = of_int 3" by (simp add: evals)
  have k': "maxZIndex sampleBoard = of_int 3 \<and> - (2 ^ 53) \<le> (3::int) \<and> (3::int) < 2 ^ 53"
    using k by simp
  show ?thesis
    using f1 f2 z1 z2 d k k'
      handleDragStart_reorders_as_bringToFront [OF f2, of 5 6 3]
      handleDragStart_reorders_as_bringToFront [OF f1, of 5 6]
    by blast
qed

text \<open>As stated, C3 fails for a note already at the front: a fresh note keeps its \<open>zIndex\<close>.\<close>

theorem handleDragStart_at_front_counterexample:
  "map id' (notes' (addNote 0 0 0 ''a'' (initialState None))) = [''a'']
   \<and> map zIndex (notes' (addNote 0 0 0 ''a'' (initialState None))) = [2]
   \<and> maxZIndex (addNote 0 0 0 ''a'' (initialState None)) = 2
   \<and> isDragging (dragState (handleDragStart 10 10 ''a'' (addNote 0 0 0 ''a'' (initialState None))))
   \<and> map zIndex (notes' (handleDragStart 10 10 ''a'' (addNote 0 0 0 ''a'' (initialState None)))) = [2]
   \<and> maxZIndex (handleDragStart 10 10 ''a'' (addNote 0 0 0 ''a'' (initialState None))) = 2"
  by (simp add: evals)

text \<open>
  Claim C4, as amended. An active session is reset by \<open>mouseup\<close> and by \<open>touchend\<close>, and
  no window event after that changes the state. \<open>deleteNote\<close> of the target leaves the
  session as it is, but no window event after it changes a note. A window event of a type
  without a listener (a cancel event, say) leaves the whole state, the session included,
  as it is.
\<close>

theorem drag_session_end:
  assumes "isDragging (dragState s)" and "list_all isWindow evs"
  shows "(ty = ''mouseup'' \<or> ty = ''touchend'' \<longrightarrow>
            \<not> isDragging (dragState (step S (Window ty cx cy) s))
          \<and> noteId (dragState (step S (Window ty cx cy) s)) = None
          \<and> run S evs (step S (Window ty cx cy) s) = step S (Window ty cx cy) s)
       \<and> (noteId (dragState s) = Some t \<longrightarrow>
            dragState (step S (DeleteNote t) s) = dragState s
          \<and> notes' (run S evs (step S (DeleteNote t) s)) = notes' (step S (DeleteNote t) s))
       \<and> (ty \<notin> {''mousemove'', ''touchmove'', ''mouseup'', ''touchend''} \<longrightarrow>
            step S (Window ty cx cy) s = s)"
proof (intro conjI impI)
  assume ty: "ty = ''mouseup'' \<or> ty = ''touchend''"
  have up: "step S (Window ty cx cy) s = handleMouseUp s"
    using ty assms(1) by (auto simp: step_def windowEvent_def commit_def handleMouseUp_def)
  show idle: "\<not> isDragging (dragState (step S (Window ty cx cy) s))"
    using assms(1) by (simp add: up handleMouseUp_def)
  show "noteId (dragState (step S (Window ty cx cy) s)) = None"
    using assms(1) by (simp add: up handleMouseUp_def)
  show "run S evs (step S (Window ty cx cy) s) = step S (Window ty cx cy) s"
    using idle assms(2) by (rule run_window_idle)
next
  assume t: "noteId (dragState s) = Some t"
  show "dragState (step S (DeleteNote t) s) = dragState s"
    by (simp add: step_def commit_simps deleteNote_def setNotes_simps)
  show "notes' (run S evs (step S (DeleteNote t) s)) = notes' (step S (DeleteNote t) s)"
    using deleteNote_orphans [OF t] assms(2) by (rule run_window_orphaned)
next
  assume "ty \<notin> {''mousemove'', ''touchmove'', ''mouseup'', ''touchend''}"
  then show "step S (Window ty cx cy) s = s"
    by (simp add: step_def windowEvent_def commit_same)
qed

theorem drag_session_end_witness:
  "isDragging (dragState sampleDrag)
   \<and> list_all isWindow [Window ''mousemove'' 30 40]
   \<and> noteId (dragState sampleDrag) = Some ''a''
   \<and> ''touchcancel'' \<notin> {''mousemove'', ''touchmove'', ''mouseup'', ''touchend''}
   \<and> \<not> isDragging (dragState (step sampleStringify (Window ''mouseup'' 0 0) sampleDrag))
   \<and> noteId (dragState (step sampleStringify (Window ''mouseup'' 0 0) sampleDrag)) = None
   \<and> run sampleStringify [Window ''mousemove'' 30 40]
        (step sampleStringify (Window ''mouseup'' 0 0) sampleDrag)
      = step sampleStringify (Window ''mouseup'' 0 0) sampleDrag
   \<and> dragState (step sampleStringify (DeleteNote ''a'') sampleDrag) = dragState sampleDrag
   \<and> notes' (run sampleStringify [Window ''mousemove'' 30 40]
        (step sampleStringify (DeleteNote ''a'') sampleDrag))
      = notes' (step sampleStringify (DeleteNote ''a'') sampleDrag)
   \<and> step sampleStringify (Window ''touchcancel'' 0 0) sampleDrag = sampleDrag"
proof -
  have h1: "isDragging (dragState sampleDrag)" by (simp add: evals)
  have h2: "list_all isWindow [Window ''mousemove'' 30 40]" by simp
  have h3: "noteId (dragState sampleDrag) = Some ''a''" by (simp add: evals)
  have h4: "''touchcancel'' \<notin> {''mousemove'', ''touchmove'', ''mouseup'', ''touchend''}" by simp
  have h5: "''mouseup'' = ''mouseup'' \<or> ''mouseup'' = ''touchend''" by simp
  note up = drag_session_end [OF h1 h2, of "''mouseup''" sampleStringify 0 0 "''a''"]
  note cancel = drag_session_end [OF h1 h2, of "''touchcancel''" sampleStringify 0 0 "''a''"]
  note u = mp [OF conjunct1 [OF up] h5]
  note v = mp [OF conjunct1 [OF conjunct2 [OF up]] h3]
  note w = mp [OF conjunct2 [OF conjunct2 [OF cancel]] h4]
  show ?thesis
    using h1 h2 h3 h4 u v w by (simp only: simp_thms)
qed

text \<open>
  As stated, C4 fails: the session is still active after \<open>deleteNote\<close> of its target and
  after a \<open>pointercancel\<close> event, and a pointer move after the latter still moves the note.
\<close>

theorem drag_session_survives_counterexample:
  "isDragging (dragState sampleDrag)
   \<and> noteId (dragState sampleDrag) = Some ''a''
   \<and> isDragging (dragState (deleteNote ''a'' sampleDrag))
   \<and> isDragging (dragState (windowEvent ''pointercancel'' 0 0 sampleDrag))
   \<and> map x (notes' (windowEvent ''pointercancel'' 0 0 sampleDrag)) = [50, 50]
   \<and> map x (notes' (windowEvent ''mousemove'' 30 40
                       (windowEvent ''pointercancel'' 0 0 sampleDrag))) = [70, 50]"
proof -
  have d: "isDragging (dragState sampleDrag)" "noteId (dragState sampleDrag) = Some ''a''"
    "startX (dragState sampleDrag) = 10" "startY (dragState sampleDrag) = 10"
    "initialNoteX (dragState sampleDrag) = 50" "initialNoteY (dragState sampleDrag) = 80"
    by (simp_all add: evals)
  have n: "map id' (notes' sampleDrag) = [''a'', ''b'']" "map x (notes' sampleDrag) = [50, 50]"
    by (simp_all add: evals)
  have c: "windowEvent ''pointercancel'' 0 0 sampleDrag = sampleDrag"
    by (simp add: windowEvent_def)
  have k: "isDragging (dragState (deleteNote ''a'' sampleDrag))"
    by (simp add: deleteNote_def setNotes_simps d)
  have m: "map x (notes' (windowEvent ''mousemove'' 30 40 sampleDrag)) = [70, 50]"
    using n
    by (auto simp: windowEvent_def handleMouseMove_def setNotes_simps d Let_def add64_def sub64_def
        round64_numeral)
  show ?thesis using n k m by (simp add: c d)
qed

text \<open>
  Claim C5. In an active session, after any pointer moves followed by a move to \<open>p\<close>, every
  note with the target's identifier sits at the anchor position plus \<open>p\<close> minus the anchor
  pointer position, as the source computes it, whatever the earlier moves were, and every
  other note is as it was: this holds whenever the target's identifier is not the empty
  string. For the empty string, which \<open>!dragState.noteId\<close> takes for no target, no move
  changes anything; there the code misses the claim.
\<close>

theorem drag_position_absolute:
  assumes "isDragging (dragState s)" and "noteId (dragState s) = Some t"
  shows "(t \<noteq> [] \<longrightarrow>
            notes' (moves (ps @ [p]) s)
              = map (\<lambda>n. if id' n = t
                          then n\<lparr>x := add64 (initialNoteX (dragState s))
                                         (sub64 (fst p) (startX (dragState s))),
                                 y := add64 (initialNoteY (dragState s))
                                         (sub64 (snd p) (startY (dragState s)))\<rparr>
                          else n) (notes' s))
       \<and> (t = [] \<longrightarrow> moves ps s = s)"
proof (intro conjI impI)
  assume t: "t \<noteq> []"
  have "(\<lambda>n. if id' n = t
              then n\<lparr>x := add64 (initialNoteX (dragState s)) (sub64 (fst p) (startX (dragState s))),
                     y := add64 (initialNoteY (dragState s)) (sub64 (snd p) (startY (dragState s)))\<rparr>
              else n) = reposition (dragState s) (fst p) (snd p)"
    using assms(2) by (auto simp: reposition_def fun_eq_iff)
  then show "notes' (moves (ps @ [p]) s)
              = map (\<lambda>n. if id' n = t
                          then n\<lparr>x := add64 (initialNoteX (dragState s))
                                         (sub64 (fst p) (startX (dragState s))),
                                 y := add64 (initialNoteY (dragState s))
                                         (sub64 (snd p) (startY (dragState s)))\<rparr>
                          else n) (notes' s)"
    using moves_notes [OF assms t, of "ps @ [p]"] by simp
next
  assume "t = []"
  with assms(2) show "moves ps s = s" by (simp add: moves_stuck)
qed

theorem drag_position_absolute_witness:
  "isDragging (dragState sampleDrag)
   \<and> noteId (dragState sampleDrag) = Some ''a''
   \<and> ''a'' \<noteq> []
   \<and> notes' (moves ([(20, 30)] @ [(11, 12)]) sampleDrag)
       = map (\<lambda>n. if id' n = ''a''
                   then n\<lparr>x := add64 (initialNoteX (dragState sampleDrag))
                                  (sub64 (fst (11::real, 12::real)) (startX (dragState sampleDrag))),
                          y := add64 (initialNoteY (dragState sampleDrag))
                                  (sub64 (snd (11::real, 12::real)) (startY (dragState sampleDrag)))\<rparr>
                   else n) (notes' sampleDrag)
   \<and> map (\<lambda>n. (id' n, x n, y n)) (notes' (moves ([(20, 30)] @ [(11, 12)]) sampleDrag))
       = [(''a'', 51, 82), (''b'', 50, 80)]
   \<and> isDragging (dragState sampleAnonDrag)
   \<and> noteId (dragState sampleAnonDrag) = Some []
   \<and> moves [(4, 5)] sampleAnonDrag = sampleAnonDrag
   \<and> map id' (notes' sampleAnonDrag) = [[]]
   \<and> map x (notes' (moves [(4, 5)] sampleAnonDrag)) = [10]
   \<and> add64 (initialNoteX (dragState sampleAnonDrag)) (sub64 4 (startX (dragState sampleAnonDrag))) = 13"
proof -
  have h1: "isDragging (dragState sampleDrag)" by (simp add: evals)
  have h2: "noteId (dragState sampleDrag) = Some ''a''" by (simp add: evals)
  have h3: "''a'' \<noteq> []" by simp
  have v: "map (\<lambda>n. (id' n, x n, y n)) (notes' (moves ([(20, 30)] @ [(11, 12)]) sampleDrag))
       = [(''a'', 51, 82), (''b'', 50, 80)]"
    by (simp add: evals)
  have g1: "isDragging (dragState sampleAnonDrag)" by (simp add: evals)
  have g2: "noteId (dragState sampleAnonDrag) = Some []" by (simp add: evals)
  have g3: "map id' (notes' sampleAnonDrag) = [[]]" "map x (notes' sampleAnonDrag) = [10]"
    by (simp_all add: evals)
  have g4: "add64 (initialNoteX (dragState sampleAnonDrag)) (sub64 4 (startX (dragState sampleAnonDrag))) = 13"
    by (simp add: evals)
  note moved = mp [OF conjunct1 [OF drag_position_absolute [OF h1 h2, of "[(20, 30)]" "(11, 12)"]] h3]
  note stuck = mp [OF conjunct2 [OF drag_position_absolute [OF g1 g2, of "[(4, 5)]" "(0, 0)"]] refl]
  have g5: "map x (notes' (moves [(4, 5)] sampleAnonDrag)) = [10]"
    by (simp only: stuck g3)
  show ?thesis
    using h1 h2 h3 v g1 g2 g3 g4 g5 moved stuck by (simp only: simp_thms)
qed




text \<open>
  Claim C7, as amended. For an identifier that a note of the board carries, a second
  \<open>bringToFront\<close> right after the first changes nothing: the state after two calls is the
  state after one.
\<close>

theorem bringToFront_twice:
  assumes "i \<in> id' ` set (notes' s)"
  shows "bringToFront i (bringToFront i s) = bringToFront i s"
proof -
  from assms obtain t where t: "find (\<lambda>n. id' n = i) (notes' s) = Some t"
    using find_present_id by blast
  show ?thesis
  proof (cases "zIndex t = maxZIndex s")
    case True
    with t show ?thesis by (simp add: bringToFront_at_front)
  next
    case False
    let ?s1 = "bringToFront i s"
    have s1: "?s1 = setNotes (map (\<lambda>n. if id' n = i then n\<lparr>zIndex := add64 (maxZIndex s) 1\<rparr> else n))
                      (s\<lparr>maxZIndex := add64 (maxZIndex s) 1\<rparr>)"
      using t False by (rule bringToFront_raise)
    have f1: "find (\<lambda>n. id' n = i) (notes' ?s1) = Some (t\<lparr>zIndex := add64 (maxZIndex s) 1\<rparr>)"
      using t by (simp add: s1 setNotes_simps find_map_zIndex)
    have m1: "maxZIndex ?s1 = add64 (maxZIndex s) 1"
      by (simp add: s1 setNotes_simps)
    show ?thesis
      using f1 m1 by (intro bringToFront_at_front [of i ?s1 "t\<lparr>zIndex := add64 (maxZIndex s) 1\<rparr>"]) simp_all
  qed
qed

theorem bringToFront_twice_witness:
  "''a'' \<in> id' ` set (notes' sampleBoard)
   \<and> bringToFront ''a'' (bringToFront ''a'' sampleBoard) = bringToFront ''a'' sampleBoard
   \<and> maxZIndex sampleBoard = 3
   \<and> maxZIndex (bringToFront ''a'' sampleBoard) = 4"
proof -
  have h: "''a'' \<in> id' ` set (notes' sampleBoard)" by (simp add: evals)
  have m: "maxZIndex sampleBoard = 3" "maxZIndex (bringToFront ''a'' sampleBoard) = 4"
    by (simp_all add: evals)
  show ?thesis using h m bringToFront_twice [OF h] by blast
qed

text \<open>As stated, C7 fails for an identifier no note carries: each call moves the counter.\<close>

theorem bringToFront_twice_absent_counterexample:
  "''b'' \<notin> id' ` set (notes' (initialState None))
   \<and> maxZIndex (bringToFront ''b'' (bringToFront ''b'' (initialState None)))
        \<noteq> maxZIndex (bringToFront ''b'' (initialState None))"
  by (simp add: evals)

text \<open>
  Claim C8. When the stored text is rejected by \<open>JSON.parse\<close> or parses to a value that is
  not an array, the loading effect leaves the initial state as it is: the collection is
  empty, and the mounted state is the one of an empty store, apart from the store itself.
  The \<open>SyntaxError\<close> of \<open>JSON.parse\<close> is raised inside the \<open>try\<close> block and caught.
\<close>

theorem malformed_payload_loads_empty:
  assumes "JSON_parse saved = None \<or> (\<exists>v. JSON_parse saved = Some v \<and> \<not> Array_isArray v)"
  shows "loadEffect JSON_parse (initialState (Some saved)) = initialState (Some saved)
       \<and> mount JSON_parse S (Some saved) = initialState (Some saved)
       \<and> notes' (mount JSON_parse S (Some saved)) = []
       \<and> mount JSON_parse S (Some saved) = (mount JSON_parse S None)\<lparr>storage := Some saved\<rparr>
       \<and> (JSON_parse saved = None \<and> saved \<noteq> [] \<longrightarrow>
            loadBody JSON_parse (initialState (Some saved)) = Inl SyntaxError)"
proof -
  have l: "loadEffect JSON_parse (initialState (Some saved)) = initialState (Some saved)"
    using assms by (auto simp: loadEffect_def loadBody_def initialState_def)
  have n: "loadEffect JSON_parse (initialState None) = initialState None"
    by (simp add: loadEffect_def loadBody_def initialState_def)
  have m: "mount JSON_parse S (Some saved) = initialState (Some saved)"
    by (simp add: mount_def l commit_def)
  have m0: "mount JSON_parse S None = initialState None"
    by (simp add: mount_def n commit_def)
  have b: "JSON_parse saved = None \<and> saved \<noteq> [] \<longrightarrow>
            loadBody JSON_parse (initialState (Some saved)) = Inl SyntaxError"
    by (simp add: loadBody_def initialState_def)
  have e: "notes' (mount JSON_parse S (Some saved)) = []"
    by (simp add: m initialState_def)
  have f: "mount JSON_parse S (Some saved) = (mount JSON_parse S None)\<lparr>storage := Some saved\<rparr>"
    by (simp add: m m0 initialState_def)
  show ?thesis
    by (intro conjI l m e f b)
qed

theorem malformed_payload_loads_empty_witness:
  "sampleParse ''{oops'' = None
   \<and> ''{oops'' \<noteq> []
   \<and> notes' (mount sampleParse sampleStringify (Some ''{oops'')) = []
   \<and> mount sampleParse sampleStringify (Some ''{oops'') = initialState (Some ''{oops'')
   \<and> loadBody sampleParse (initialState (Some ''{oops'')) = Inl SyntaxError
   \<and> sampleParse ''42'' = Some (JNumber 42)
   \<and> \<not> Array_isArray (JNumber 42)
   \<and> notes' (mount sampleParse sampleStringify (Some ''42'')) = []
   \<and> mount sampleParse sampleStringify (Some ''42'') = initialState (Some ''42'')"
proof -
  have p1: "sampleParse ''{oops'' = None" by (simp add: sampleParse_def)
  have p2: "sampleParse ''42'' = Some (JNumber 42)" by (simp add: sampleParse_def)
  have q1: "''{oops'' \<noteq> []" by simp
  have q2: "\<not> Array_isArray (JNumber 42)" by simp
  have h1: "sampleParse ''{oops'' = None
            \<or> (\<exists>v. sampleParse ''{oops'' = Some v \<and> \<not> Array_isArray v)"
    using p1 by (rule disjI1)
  have h2: "sampleParse ''42'' = None \<or> (\<exists>v. sampleParse ''42'' = Some v \<and> \<not> Array_isArray v)"
    using p2 q2 by blast
  note t1 = malformed_payload_loads_empty [of sampleParse "''{oops''" sampleStringify, OF h1]
  note t2 = malformed_payload_loads_empty [of sampleParse "''42''" sampleStringify, OF h2]
  have b: "loadBody sampleParse (initialState (Some ''{oops'')) = Inl SyntaxError"
    using t1 p1 q1 by blast
  show ?thesis
    using p1 p2 q1 q2 b t1 t2 by blast
qed




text \<open>
  Claim C10. No handler writes \<open>id\<close>, \<open>width\<close> or \<open>height\<close> of a note: \<open>addNote\<close> keeps
  the old notes as a prefix, \<open>deleteNote\<close> keeps a subsequence of unchanged notes, and
  the other handlers keep the list of (\<open>id\<close>, \<open>width\<close>, \<open>height\<close>) triples.
\<close>

theorem id_and_size_immutable:
  "take (length (notes' s)) (notes' (addNote r1 r2 r3 uuid s)) = notes' s
   \<and> map frame (notes' (updateNoteContent i c s)) = map frame (notes' s)
   \<and> map frame (notes' (updateNoteColor i k s)) = map frame (notes' s)
   \<and> map frame (notes' (bringToFront i s)) = map frame (notes' s)
   \<and> subseq (notes' (deleteNote i s)) (notes' s)
   \<and> map frame (notes' (handleDragStart cx cy i s)) = map frame (notes' s)
   \<and> map frame (notes' (handleMouseMove cx cy s)) = map frame (notes' s)"
proof (intro conjI)
  show "take (length (notes' s)) (notes' (addNote r1 r2 r3 uuid s)) = notes' s"
    by (simp add: addNote_def setNotes_simps Let_def)
  show "map frame (notes' (updateNoteContent i c s)) = map frame (notes' s)"
    by (simp add: updateNoteContent_def setNotes_simps map_frame_update frame_def)
  show "map frame (notes' (updateNoteColor i k s)) = map frame (notes' s)"
    by (simp add: updateNoteColor_def setNotes_simps map_frame_update frame_def)
  show b: "map frame (notes' (bringToFront i s)) = map frame (notes' s)"
    by (simp add: bringToFront_def setNotes_simps map_frame_update frame_def Let_def)
  show "subseq (notes' (deleteNote i s)) (notes' s)"
    by (simp add: deleteNote_def setNotes_simps)
  show "map frame (notes' (handleDragStart cx cy i s)) = map frame (notes' s)"
    using b by (simp add: handleDragStart_def split: option.splits)
  show "map frame (notes' (handleMouseMove cx cy s)) = map frame (notes' s)"
    by (simp add: handleMouseMove_def setNotes_simps map_frame_update frame_def Let_def)
qed

theorem id_and_size_immutable_witness:
  "map frame (notes' sampleDrag) = [(''a'', 220, 220), (''b'', 220, 220)]
   \<and> take (length (notes' sampleDrag)) (notes' (addNote 0 0 0 ''c'' sampleDrag)) = notes' sampleDrag
   \<and> map frame (notes' (updateNoteContent ''a'' ''hi'' sampleDrag)) = map frame (notes' sampleDrag)
   \<and> map frame (notes' (updateNoteColor ''a'' blue sampleDrag)) = map frame (notes' sampleDrag)
   \<and> map frame (notes' (bringToFront ''a'' sampleDrag)) = map frame (notes' sampleDrag)
   \<and> subseq (notes' (deleteNote ''a'' sampleDrag)) (notes' sampleDrag)
   \<and> map frame (notes' (handleDragStart 30 40 ''a'' sampleDrag)) = map frame (notes' sampleDrag)
   \<and> map frame (notes' (handleMouseMove 30 40 sampleDrag)) = map frame (notes' sampleDrag)"
proof -
  have n: "map frame (notes' sampleDrag) = [(''a'', 220, 220), (''b'', 220, 220)]"
    by (simp add: evals)
  show ?thesis
    using n id_and_size_immutable [of sampleDrag 0 0 0 "''c''" "''a''" "''hi''" blue 30 40]
    by blast
qed

end
